theory Spec2Isabelle
  imports Complex_Main "HOL-Library.Log_Nat"
begin

section \<open>rattle: Rate And Time To Limit Estimate (RattleSup/Rattle.c)\<close>

text \<open>
  A shallow embedding of \<^verbatim>\<open>RattleSup/Rattle.c\<close>: the record's private data
  (\<^verbatim>\<open>RecordData\<close>), the least squares fit \<^verbatim>\<open>slopeIntersect\<close>, and the two record
  functions \<^verbatim>\<open>RattleInit\<close> and \<^verbatim>\<open>RattleProcess\<close>.

  Conventions of the embedding.
  \<^item> C \<^verbatim>\<open>int\<close> and \<^verbatim>\<open>epicsInt32\<close> are \<open>int\<close>. Every integer the record functions
    compute stays far inside 32 bits (counts are bounded by the buffer size, at
    most 32768, or by the decimation factor, itself an \<^verbatim>\<open>epicsInt32\<close>), so no
    operation of the modelled code wraps.
  \<^item> \<^verbatim>\<open>epicsFloat64\<close> is IEEE 754 binary64: a finite value \<open>Num r\<close>, the two
    infinities, or NaN. An operation on finite values yields the binary64 value
    nearest to its exact result, ties to even, and overflows to an infinity
    (function \<open>to_double\<close>); on the special values it follows IEEE 754. The sign of
    zero is outside the model: a finite nonzero value divided by zero takes the
    sign of the dividend.
  \<^item> A read outside the allocated buffer is undefined behaviour in C; the model
    makes it the error value \<open>OutOfBounds\<close>.
\<close>

subsection \<open>epicsFloat64\<close>

datatype epicsFloat64 = Num real | PosInf | NegInf | NaN

definition f_inf :: "bool \<Rightarrow> epicsFloat64" where
  "f_inf negative = (if negative then NegInf else PosInf)"

text \<open>Rounding to the nearest integer, ties to the even one.\<close>

definition round_half_even :: "real \<Rightarrow> int" where
  "round_half_even x =
     (let f = \<lfloor>x\<rfloor>; d = x - of_int f
      in if d < 1 / 2 then f else if 1 / 2 < d then f + 1 else if even f then f else f + 1)"

text \<open>\<open>x * 2 ^ k\<close> for an integer \<open>k\<close> of either sign.\<close>

definition scale2 :: "real \<Rightarrow> int \<Rightarrow> real" where
  "scale2 x k = (if 0 \<le> k then x * 2 ^ nat k else x / 2 ^ nat (- k))"

text \<open>The binary exponent of \<open>a > 0\<close>: the \<open>e\<close> with \<open>2 ^ e \<le> a < 2 ^ (e + 1)\<close>.\<close>

definition exponent_of :: "real \<Rightarrow> int" where
  "exponent_of a = (if 1 \<le> a then bitlen \<lfloor>a\<rfloor> - 1 else - bitlen (\<lceil>1 / a\<rceil> - 1))"

text \<open>
  The binary64 value of an exact result \<open>r\<close>: 53 significant bits at the exponent
  of \<open>r\<close> (at the exponent -1022 for a subnormal), rounded to nearest, ties to
  even; a result that rounds to \<open>2 ^ 1024\<close> or beyond is an infinity.
\<close>

definition to_double :: "real \<Rightarrow> epicsFloat64" where
  "to_double r =
     (if r = 0 then Num 0
      else
        let a = \<bar>r\<bar>;
            e = max (exponent_of a) (- 1022);
            v = scale2 (of_int (round_half_even (scale2 a (52 - e)))) (e - 52)
        in if 2 ^ 1024 \<le> v then f_inf (r < 0) else Num (if r < 0 then - v else v))"

fun f_neg :: "epicsFloat64 \<Rightarrow> epicsFloat64" where
  "f_neg (Num a) = Num (- a)"
| "f_neg PosInf = NegInf"
| "f_neg NegInf = PosInf"
| "f_neg NaN = NaN"

fun f_add :: "epicsFloat64 \<Rightarrow> epicsFloat64 \<Rightarrow> epicsFloat64" where
  "f_add NaN _ = NaN"
| "f_add _ NaN = NaN"
| "f_add (Num a) (Num b) = to_double (a + b)"
| "f_add (Num a) y = y"
| "f_add x (Num b) = x"
| "f_add PosInf PosInf = PosInf"
| "f_add NegInf NegInf = NegInf"
| "f_add PosInf NegInf = NaN"
| "f_add NegInf PosInf = NaN"

definition f_sub :: "epicsFloat64 \<Rightarrow> epicsFloat64 \<Rightarrow> epicsFloat64" where
  "f_sub x y = f_add x (f_neg y)"

text \<open>The sign of a value that is not NaN: \<open>True\<close> for negative.\<close>

fun f_negative :: "epicsFloat64 \<Rightarrow> bool" where
  "f_negative (Num a) = (a < 0)"
| "f_negative NegInf = True"
| "f_negative _ = False"

fun f_mul :: "epicsFloat64 \<Rightarrow> epicsFloat64 \<Rightarrow> epicsFloat64" where
  "f_mul NaN _ = NaN"
| "f_mul _ NaN = NaN"
| "f_mul (Num a) (Num b) = to_double (a * b)"
| "f_mul (Num a) y = (if a = 0 then NaN else f_inf ((a < 0) \<noteq> f_negative y))"
| "f_mul x (Num b) = (if b = 0 then NaN else f_inf (f_negative x \<noteq> (b < 0)))"
| "f_mul x y = f_inf (f_negative x \<noteq> f_negative y)"

fun f_div :: "epicsFloat64 \<Rightarrow> epicsFloat64 \<Rightarrow> epicsFloat64" where
  "f_div NaN _ = NaN"
| "f_div _ NaN = NaN"
| "f_div (Num a) (Num b) =
     (if b \<noteq> 0 then to_double (a / b) else if a = 0 then NaN else f_inf (a < 0))"
| "f_div (Num a) y = Num 0"
| "f_div x (Num b) = f_inf (f_negative x \<noteq> (b < 0))"
| "f_div x y = NaN"

text \<open>Conversion of a C \<^verbatim>\<open>int\<close> to \<^verbatim>\<open>double\<close>.\<close>

definition f_of_int :: "int \<Rightarrow> epicsFloat64" where
  "f_of_int n = to_double (of_int n)"

text \<open>The C comparison \<^verbatim>\<open>x <= 0\<close> on a double: false for NaN.\<close>

fun f_le_zero :: "epicsFloat64 \<Rightarrow> bool" where
  "f_le_zero (Num a) = (a \<le> 0)"
| "f_le_zero NegInf = True"
| "f_le_zero _ = False"

definition isnan :: "epicsFloat64 \<Rightarrow> bool" where
  "isnan x = (x = NaN)"

definition isinf :: "epicsFloat64 \<Rightarrow> bool" where
  "isinf x = (x = PosInf \<or> x = NegInf)"

definition isNanOrInfinite :: "epicsFloat64 \<Rightarrow> bool" where
  "isNanOrInfinite x = (isnan x \<or> isinf x)"

subsection \<open>Time stamps\<close>

text \<open>
  \<^verbatim>\<open>epicsTimeStamp\<close> is declared by EPICS base (\<^verbatim>\<open>epicsTime.h\<close>): seconds past the
  EPICS epoch and nanoseconds within the second.
\<close>

record epicsTimeStamp =
  secPastEpoch :: nat
  nsec :: nat

definition seconds_of :: "epicsTimeStamp \<Rightarrow> real" where
  "seconds_of t = real (secPastEpoch t) + real (nsec t) / 1000000000"

text \<open>
  Modelled from the spec: \<^verbatim>\<open>epicsTimeDiffInSeconds\<close> is a function of EPICS base, not
  of this repository. The spec's time offsets are taken relative to the newest
  sample, whose offset is 0 while all others are negative: the function returns
  left minus right, in seconds, as the double nearest to the exact difference
  (a difference of whole seconds is exact).
\<close>

definition epicsTimeDiffInSeconds :: "epicsTimeStamp \<Rightarrow> epicsTimeStamp \<Rightarrow> epicsFloat64" where
  "epicsTimeDiffInSeconds left right = to_double (seconds_of left - seconds_of right)"

subsection \<open>Structure types\<close>

record Sample =
  sample_time :: epicsTimeStamp
  sample_value :: epicsFloat64

text \<open>
  \<^verbatim>\<open>buffer\<close> is the allocated array, all of its \<^verbatim>\<open>maximumSamples\<close> cells; the
  measurements are its first \<^verbatim>\<open>sampleCount\<close> cells.
\<close>

record RecordData =
  buffer :: "Sample list"
  sampleCount :: int
  maximumSamples :: int
  decimateCount :: int
  decimateTotal :: epicsFloat64

datatype error = OutOfBounds int

text \<open>A read of \<^verbatim>\<open>pData->buffer[i]\<close>.\<close>

definition buffer_at :: "RecordData \<Rightarrow> int \<Rightarrow> error + Sample" where
  "buffer_at pData i =
     (if 0 \<le> i \<and> i < int (length (buffer pData)) then Inr (buffer pData ! nat i)
      else Inl (OutOfBounds i))"

subsection \<open>slopeIntersect\<close>

record fit_sums =
  x_sum :: epicsFloat64
  y_sum :: epicsFloat64
  xx_sum :: epicsFloat64
  xy_sum :: epicsFloat64
  actual_size :: int

text \<open>The \<^verbatim>\<open>for (i = firstSlot; i <= lastSlot; i++)\<close> loop, from \<open>i\<close> on.\<close>

function sum_loop ::
  "RecordData \<Rightarrow> epicsTimeStamp \<Rightarrow> int \<Rightarrow> int \<Rightarrow> fit_sums \<Rightarrow> error + fit_sums" where
  "sum_loop pData t0 i lastSlot acc =
     (if i \<le> lastSlot then
        (case buffer_at pData i of
           Inl e \<Rightarrow> Inl e
         | Inr s \<Rightarrow>
             let x = epicsTimeDiffInSeconds (sample_time s) t0;
                 y = sample_value s
             in sum_loop pData t0 (i + 1) lastSlot
                  \<lparr>x_sum = f_add (x_sum acc) x,
                   y_sum = f_add (y_sum acc) y,
                   xx_sum = f_add (xx_sum acc) (f_mul x x),
                   xy_sum = f_add (xy_sum acc) (f_mul x y),
                   actual_size = actual_size acc + 1\<rparr>)
      else Inr acc)"
  by pat_completeness auto
termination
  by (relation "measure (\<lambda>(pData, t0, i, lastSlot, acc). nat (lastSlot + 1 - i))") auto

declare sum_loop.simps [simp del]

text \<open>The result is the pair (\<^verbatim>\<open>*slope\<close>, \<^verbatim>\<open>*intersect\<close>).\<close>

definition slopeIntersect :: "RecordData \<Rightarrow> int \<Rightarrow> error + (epicsFloat64 \<times> epicsFloat64)" where
  "slopeIntersect pData number =
     (let firstSlot = sampleCount pData - number;
          firstSlot = (if firstSlot < 0 then 0 else firstSlot);
          lastSlot = sampleCount pData - 1
      in if number < 1 then Inr (Num 0, Num 0)
         else if number < 2 then
           (case buffer_at pData lastSlot of
              Inl e \<Rightarrow> Inl e
            | Inr s \<Rightarrow> Inr (Num 0, sample_value s))
         else
           (case buffer_at pData lastSlot of
              Inl e \<Rightarrow> Inl e
            | Inr s0 \<Rightarrow>
                (case sum_loop pData (sample_time s0) firstSlot lastSlot
                        \<lparr>x_sum = Num 0, y_sum = Num 0, xx_sum = Num 0, xy_sum = Num 0,
                         actual_size = 0\<rparr> of
                   Inl e \<Rightarrow> Inl e
                 | Inr r \<Rightarrow>
                     let n = f_of_int (actual_size r);
                         delta = f_sub (f_mul n (xx_sum r)) (f_mul (x_sum r) (x_sum r))
                     in Inr (f_div (f_sub (f_mul n (xy_sum r)) (f_mul (x_sum r) (y_sum r))) delta,
                             f_div (f_sub (f_mul (y_sum r) (xx_sum r))
                                          (f_mul (x_sum r) (xy_sum r))) delta))))"

subsection \<open>Macros\<close>

text \<open>\<^verbatim>\<open>MAX\<close> and \<^verbatim>\<open>MIN\<close>, at type \<^verbatim>\<open>epicsInt32\<close>.\<close>

definition MAX_c :: "int \<Rightarrow> int \<Rightarrow> int" where
  "MAX_c a b = (if a \<ge> b then a else b)"

definition MIN_c :: "int \<Rightarrow> int \<Rightarrow> int" where
  "MIN_c a b = (if a \<le> b then a else b)"

definition LIMIT :: "int \<Rightarrow> int \<Rightarrow> int \<Rightarrow> int" where
  "LIMIT x low high = MAX_c low (MIN_c x high)"

text \<open>\<^verbatim>\<open>ZERO2ONE\<close> is used at both types; on a double the 1 becomes 1.0.\<close>

definition ZERO2ONE :: "int \<Rightarrow> int" where
  "ZERO2ONE x = (if x \<le> 0 then 1 else x)"

definition ZERO2ONE_double :: "epicsFloat64 \<Rightarrow> epicsFloat64" where
  "ZERO2ONE_double x = (if f_le_zero x then Num 1 else x)"

subsection \<open>The aSubRecord\<close>

text \<open>
  \<^verbatim>\<open>menuFtype\<close> is declared by EPICS base; these are the members \<^verbatim>\<open>fypeName\<close> names.
\<close>

datatype menuFtype =
    menuFtypeSTRING | menuFtypeCHAR | menuFtypeUCHAR | menuFtypeSHORT | menuFtypeUSHORT
  | menuFtypeLONG | menuFtypeULONG | menuFtypeINT64 | menuFtypeUINT64 | menuFtypeFLOAT
  | menuFtypeDOUBLE | menuFtypeENUM

text \<open>
  An input field X of the record: its declared type \<^verbatim>\<open>prec->ftX\<close> and what the cell
  \<^verbatim>\<open>prec->X\<close> points to, as \<^verbatim>\<open>LONG_FIELD\<close> and as \<^verbatim>\<open>DOUBLE_FIELD\<close> read it.
\<close>

record input_field =
  ft :: menuFtype
  LONG_FIELD :: int
  DOUBLE_FIELD :: epicsFloat64

definition DOUBLE_VALUE :: "input_field \<Rightarrow> epicsFloat64 \<Rightarrow> epicsFloat64" where
  "DOUBLE_VALUE field d = (if ft field = menuFtypeDOUBLE then DOUBLE_FIELD field else d)"

definition LONG_VALUE :: "input_field \<Rightarrow> int \<Rightarrow> int" where
  "LONG_VALUE field d = (if ft field = menuFtypeLONG then LONG_FIELD field else d)"

text \<open>
  The fields of the \<^verbatim>\<open>aSubRecord\<close> that the two record functions use. \<open>fld_a\<close> stands
  for the pair \<^verbatim>\<open>fta\<close>, \<^verbatim>\<open>a\<close>, and so on; \<open>inpa_is_PV_LINK\<close> is
  \<^verbatim>\<open>prec->inpa.type == PV_LINK\<close>.
\<close>

record aSubRecord =
  pact :: int
  dpvt :: "RecordData option"
  inpa_is_PV_LINK :: bool
  fld_a :: input_field
  fld_b :: input_field
  fld_c :: input_field
  fld_d :: input_field
  fld_e :: input_field
  fld_f :: input_field
  fld_g :: input_field
  fld_h :: input_field
  fld_i :: input_field
  fld_j :: input_field
  fld_l :: input_field
  fld_m :: input_field
  fld_r :: input_field
  fld_s :: input_field
  fld_t :: input_field
  ftva :: menuFtype
  ftvb :: menuFtype
  ftvc :: menuFtype
  vala :: int
  valb :: epicsFloat64
  valc :: epicsFloat64
  vald :: epicsFloat64
  vale :: epicsFloat64
  valf :: epicsFloat64
  valg :: epicsFloat64
  valh :: epicsFloat64
  vali :: epicsFloat64

text \<open>
  What the host supplies to a cycle: the value of \<^verbatim>\<open>epicsSevInvalid\<close> (declared in
  \<^verbatim>\<open>alarm.h\<close>), the time stamp \<^verbatim>\<open>dbGetTimeStamp\<close> reports for INPA, and the time
  \<^verbatim>\<open>epicsTimeGetCurrent\<close> reports.
\<close>

record host =
  epicsSevInvalid :: int
  inpa_time :: epicsTimeStamp
  current_time :: epicsTimeStamp

subsection \<open>RattleInit\<close>

text \<open>
  The record specific data as \<^verbatim>\<open>RattleInit\<close> allocates it: \<^verbatim>\<open>callocMustSucceed\<close>
  returns zeroed memory or does not return at all.
\<close>

definition zero_sample :: Sample where
  "zero_sample = \<lparr>sample_time = \<lparr>secPastEpoch = 0, nsec = 0\<rparr>, sample_value = Num 0\<rparr>"

definition allocate :: "int \<Rightarrow> RecordData" where
  "allocate number =
     \<lparr>buffer = replicate (nat number) zero_sample,
      sampleCount = 0,
      maximumSamples = number,
      decimateCount = 0,
      decimateTotal = Num 0\<rparr>"

text \<open>The result is the returned status and the record as the function leaves it.\<close>

definition RattleInit :: "aSubRecord \<Rightarrow> int \<times> aSubRecord" where
  "RattleInit prec0 =
     (let prec = prec0\<lparr>dpvt := None\<rparr> in
      if ft (fld_a prec) \<noteq> menuFtypeDOUBLE
         \<or> ft (fld_b prec) \<noteq> menuFtypeLONG
         \<or> ft (fld_c prec) \<noteq> menuFtypeDOUBLE
         \<or> ft (fld_l prec) \<noteq> menuFtypeLONG
         \<or> ft (fld_j prec) \<noteq> menuFtypeLONG
         \<or> ft (fld_m prec) \<noteq> menuFtypeLONG
         \<or> ft (fld_r prec) \<noteq> menuFtypeLONG
         \<or> ft (fld_s prec) \<noteq> menuFtypeDOUBLE
         \<or> ft (fld_t prec) \<noteq> menuFtypeDOUBLE
         \<or> ftva prec \<noteq> menuFtypeLONG
         \<or> ftvb prec \<noteq> menuFtypeDOUBLE
         \<or> ftvc prec \<noteq> menuFtypeDOUBLE
      then (- 1, prec\<lparr>pact := 1\<rparr>)
      else
        let n1 = LONG_VALUE (fld_b prec) 0;
            n2 = LONG_VALUE (fld_d prec) 0;
            n3 = LONG_VALUE (fld_f prec) 0;
            n4 = LONG_VALUE (fld_h prec) 0;
            n5 = LONG_VALUE (fld_m prec) 0;
            max = MAX_c (MAX_c (MAX_c n1 n2) (MAX_c n3 n4)) n5;
            number = LIMIT max 10 32768
        in (0, prec\<lparr>dpvt := Some (allocate number)\<rparr>))"

subsection \<open>RattleProcess\<close>

text \<open>The body of \<^verbatim>\<open>if (doReset)\<close>.\<close>

definition reset :: "RecordData \<Rightarrow> RecordData" where
  "reset pData = pData\<lparr>sampleCount := 0, decimateCount := 0, decimateTotal := Num 0\<rparr>"

text \<open>The statement \<^verbatim>\<open>if (pData->decimateCount < decimateFactor) { ... }\<close>.\<close>

definition accumulate :: "int \<Rightarrow> epicsFloat64 \<Rightarrow> RecordData \<Rightarrow> RecordData" where
  "accumulate decimateFactor val pData =
     (if decimateCount pData < decimateFactor
      then pData\<lparr>decimateCount := decimateCount pData + 1,
                 decimateTotal := f_add (decimateTotal pData) val\<rparr>
      else pData)"

text \<open>
  \<^verbatim>\<open>memmove (&buffer[0], &buffer[1], n * sizeof (buffer[0]))\<close>: cells 1 .. n move
  to 0 .. n - 1, the other cells keep their content.
\<close>

definition memmove_down :: "Sample list \<Rightarrow> nat \<Rightarrow> Sample list" where
  "memmove_down buf n = take n (drop 1 buf) @ drop n buf"

text \<open>
  The statement \<^verbatim>\<open>if (pData->sampleCount < pData->maximumSamples) { ... } else { ... }\<close>
  that puts the measurement into the buffer.
\<close>

definition store_measurement :: "Sample \<Rightarrow> RecordData \<Rightarrow> RecordData" where
  "store_measurement measurement pData =
     (if sampleCount pData < maximumSamples pData
      then pData\<lparr>buffer := (buffer pData)[nat (sampleCount pData) := measurement],
                 sampleCount := sampleCount pData + 1\<rparr>
      else pData\<lparr>buffer := (memmove_down (buffer pData) (nat (maximumSamples pData - 1)))
                             [nat (maximumSamples pData - 1) := measurement]\<rparr>)"

text \<open>
  The part of a cycle that changes the record specific data, from \<^verbatim>\<open>if (doReset)\<close>
  to the end of \<^verbatim>\<open>if (pData->decimateCount >= decimateFactor)\<close>.
\<close>

definition ingest ::
  "bool \<Rightarrow> int \<Rightarrow> epicsTimeStamp \<Rightarrow> epicsFloat64 \<Rightarrow> RecordData \<Rightarrow> RecordData" where
  "ingest doReset decimateFactor time val pData0 =
     (let pData1 = (if doReset then reset pData0 else pData0);
          pData2 = accumulate decimateFactor val pData1
      in if decimateCount pData2 \<ge> decimateFactor then
           let measurement =
                 \<lparr>sample_time = time,
                  sample_value = (if decimateFactor = 1 then val
                                  else f_div (decimateTotal pData2) (f_of_int decimateFactor))\<rparr>;
               pData3 = pData2\<lparr>decimateCount := 0, decimateTotal := Num 0\<rparr>
           in store_measurement measurement pData3
         else pData2)"

text \<open>
  One turn of the loop \<^verbatim>\<open>for (j = 0; j < 4; j++)\<close>: the result is the pair
  (\<^verbatim>\<open>rate[j]\<close>, \<^verbatim>\<open>eta[j]\<close>).
\<close>

definition estimate ::
  "RecordData \<Rightarrow> epicsFloat64 \<Rightarrow> epicsFloat64 \<Rightarrow> int \<Rightarrow> epicsFloat64
     \<Rightarrow> error + (epicsFloat64 \<times> epicsFloat64)" where
  "estimate pData rateOfChangeFactor timeEstimateFactor number threshold =
     (case slopeIntersect pData number of
        Inl e \<Rightarrow> Inl e
      | Inr (rate, intersect) \<Rightarrow>
          let eta = f_div (f_sub threshold intersect) rate
          in Inr (f_mul rate rateOfChangeFactor, f_div eta timeEstimateFactor))"

text \<open>The inputs of a cycle, as \<^verbatim>\<open>RattleProcess\<close> reads them.\<close>

definition sample_time_of :: "host \<Rightarrow> aSubRecord \<Rightarrow> epicsTimeStamp" where
  "sample_time_of h prec = (if inpa_is_PV_LINK prec then inpa_time h else current_time h)"

definition numberSamples :: "aSubRecord \<Rightarrow> RecordData \<Rightarrow> int list" where
  "numberSamples prec pData =
     [LIMIT (LONG_VALUE (fld_b prec) 2) 2 (maximumSamples pData),
      LIMIT (LONG_VALUE (fld_d prec) 2) 2 (maximumSamples pData),
      LIMIT (LONG_VALUE (fld_f prec) 2) 2 (maximumSamples pData),
      LIMIT (LONG_VALUE (fld_h prec) 2) 2 (maximumSamples pData)]"

definition thresholds :: "aSubRecord \<Rightarrow> epicsFloat64 list" where
  "thresholds prec =
     [DOUBLE_VALUE (fld_c prec) (Num 0),
      DOUBLE_VALUE (fld_e prec) (Num 0),
      DOUBLE_VALUE (fld_g prec) (Num 0),
      DOUBLE_VALUE (fld_i prec) (Num 0)]"

definition decimateFactor :: "aSubRecord \<Rightarrow> int" where
  "decimateFactor prec = ZERO2ONE (LONG_VALUE (fld_l prec) 1)"

definition doReset :: "aSubRecord \<Rightarrow> bool" where
  "doReset prec = (LONG_FIELD (fld_r prec) = 1)"

definition rateOfChangeFactor :: "aSubRecord \<Rightarrow> epicsFloat64" where
  "rateOfChangeFactor prec = ZERO2ONE_double (DOUBLE_VALUE (fld_s prec) (Num 1))"

definition timeEstimateFactor :: "aSubRecord \<Rightarrow> epicsFloat64" where
  "timeEstimateFactor prec = ZERO2ONE_double (DOUBLE_VALUE (fld_t prec) (Num 1))"

text \<open>
  The result is \<open>Inr\<close> of the returned status and the record as the cycle leaves
  it, or \<open>Inl\<close> when the cycle reads outside the buffer.
\<close>

definition RattleProcess :: "host \<Rightarrow> aSubRecord \<Rightarrow> error + (int \<times> aSubRecord)" where
  "RattleProcess h prec =
     (case dpvt prec of
        None \<Rightarrow> Inr (- 1, prec)
      | Some pData \<Rightarrow>
          let severity = LONG_VALUE (fld_j prec) 0 in
          if severity \<ge> epicsSevInvalid h then Inr (0, prec)
          else
            let val = DOUBLE_FIELD (fld_a prec) in
            if isNanOrInfinite val then Inr (- 1, prec)
            else
              let time = sample_time_of h prec;
                  pData' = ingest (doReset prec) (decimateFactor prec) time val pData;
                  prec' = prec\<lparr>dpvt := Some pData', vala := sampleCount pData'\<rparr>;
                  est = (\<lambda>j. estimate pData' (rateOfChangeFactor prec) (timeEstimateFactor prec)
                                (numberSamples prec pData ! j) (thresholds prec ! j))
              in case est 0 of Inl e \<Rightarrow> Inl e | Inr (rate0, eta0) \<Rightarrow>
                 (case est 1 of Inl e \<Rightarrow> Inl e | Inr (rate1, eta1) \<Rightarrow>
                 (case est 2 of Inl e \<Rightarrow> Inl e | Inr (rate2, eta2) \<Rightarrow>
                 (case est 3 of Inl e \<Rightarrow> Inl e | Inr (rate3, eta3) \<Rightarrow>
                    Inr (0, prec'\<lparr>valb := rate0, valc := eta0,
                                   vald := rate1, vale := eta1,
                                   valf := rate2, valg := eta2,
                                   valh := rate3, vali := eta3\<rparr>)))))"

subsection \<open>Notions used to state the properties\<close>

text \<open>
  The representation invariant of the record specific data: the buffer has
  \<^verbatim>\<open>maximumSamples\<close> cells, at least one, and \<^verbatim>\<open>sampleCount\<close> of them are in use.
\<close>

definition valid_data :: "RecordData \<Rightarrow> bool" where
  "valid_data pData =
     (0 \<le> sampleCount pData \<and> sampleCount pData \<le> maximumSamples pData
      \<and> 1 \<le> maximumSamples pData \<and> int (length (buffer pData)) = maximumSamples pData)"

text \<open>The measurements in the store, oldest first.\<close>

definition stored :: "RecordData \<Rightarrow> Sample list" where
  "stored pData = take (nat (sampleCount pData)) (buffer pData)"

text \<open>
  The spec's \<open>window(n)\<close>: the last \<open>min(n, length())\<close> measurements in time order,
  empty if \<open>n < 1\<close>.
\<close>

definition window :: "RecordData \<Rightarrow> int \<Rightarrow> Sample list" where
  "window pData n =
     (if n < 1 then []
      else drop (length (stored pData) - nat (min n (int (length (stored pData)))))
                (stored pData))"

text \<open>
  The indices at which \<^verbatim>\<open>slopeIntersect\<close> reads \<^verbatim>\<open>pData->buffer\<close>, in the order of
  the reads: none when \<^verbatim>\<open>number < 1\<close>; \<^verbatim>\<open>buffer[lastSlot].value\<close> when
  \<^verbatim>\<open>number < 2\<close>; otherwise \<^verbatim>\<open>buffer[lastSlot].time\<close> and then the loop's
  \<^verbatim>\<open>buffer[i]\<close>, \<^verbatim>\<open>i\<close> from \<^verbatim>\<open>firstSlot\<close> to \<^verbatim>\<open>lastSlot\<close>.
\<close>

definition slopeIntersect_reads :: "RecordData \<Rightarrow> int \<Rightarrow> int list" where
  "slopeIntersect_reads pData number =
     (let firstSlot = sampleCount pData - number;
          firstSlot = (if firstSlot < 0 then 0 else firstSlot);
          lastSlot = sampleCount pData - 1
      in if number < 1 then []
         else if number < 2 then [lastSlot]
         else lastSlot # [firstSlot..lastSlot])"

text \<open>
  A sequence of cycles seen from the store: each gives the reset flag, the
  decimation factor, the time stamp and the raw value of one cycle.
\<close>

fun ingests ::
  "(bool \<times> int \<times> epicsTimeStamp \<times> epicsFloat64) list \<Rightarrow> RecordData \<Rightarrow> RecordData" where
  "ingests [] pData = pData"
| "ingests ((r, k, t, v) # cycles) pData = ingests cycles (ingest r k t v pData)"


text \<open>
  Two stores that no operation of the module tells apart: the same measurements,
  capacity and decimation state. The cells of the buffer beyond \<^verbatim>\<open>sampleCount\<close> may
  differ.
\<close>

definition same_store :: "RecordData \<Rightarrow> RecordData \<Rightarrow> bool" where
  "same_store p q =
     (sampleCount p = sampleCount q \<and> maximumSamples p = maximumSamples q
      \<and> decimateCount p = decimateCount q \<and> decimateTotal p = decimateTotal q
      \<and> stored p = stored q)"

text \<open>
  The outputs of a cycle by slot: \<^verbatim>\<open>rate[j]\<close> goes to VALB, VALD, VALF, VALH and
  \<^verbatim>\<open>eta[j]\<close> to VALC, VALE, VALG, VALI.
\<close>

definition rates :: "aSubRecord \<Rightarrow> epicsFloat64 list" where
  "rates prec = [valb prec, vald prec, valf prec, valh prec]"

definition etas :: "aSubRecord \<Rightarrow> epicsFloat64 list" where
  "etas prec = [valc prec, vale prec, valg prec, vali prec]"


subsection \<open>Example data\<close>

definition at_second :: "nat \<Rightarrow> epicsTimeStamp" where
  "at_second n = \<lparr>secPastEpoch = n, nsec = 0\<rparr>"

definition measured :: "nat \<Rightarrow> real \<Rightarrow> Sample" where
  "measured n v = \<lparr>sample_time = at_second n, sample_value = Num v\<rparr>"

text \<open>A store of capacity 10 with the given measurements in its first cells.\<close>

definition store10 :: "Sample list \<Rightarrow> RecordData" where
  "store10 ms =
     \<lparr>buffer = ms @ replicate (10 - length ms) zero_sample,
      sampleCount = int (length ms),
      maximumSamples = 10,
      decimateCount = 0,
      decimateTotal = Num 0\<rparr>"

definition long_input :: "int \<Rightarrow> input_field" where
  "long_input n = \<lparr>ft = menuFtypeLONG, LONG_FIELD = n, DOUBLE_FIELD = Num 0\<rparr>"

definition double_input :: "epicsFloat64 \<Rightarrow> input_field" where
  "double_input x = \<lparr>ft = menuFtypeDOUBLE, LONG_FIELD = 0, DOUBLE_FIELD = x\<rparr>"

text \<open>
  A record with the given private data, input value and severity; windows of 2
  and 3 measurements, thresholds 100, decimation factor 1, both scale factors 2.
\<close>

definition example_record :: "RecordData option \<Rightarrow> epicsFloat64 \<Rightarrow> int \<Rightarrow> aSubRecord" where
  "example_record d x sevr =
     \<lparr>pact = 0, dpvt = d, inpa_is_PV_LINK = True,
      fld_a = double_input x,
      fld_b = long_input 2, fld_c = double_input (Num 100),
      fld_d = long_input 3, fld_e = double_input (Num 100),
      fld_f = long_input 2, fld_g = double_input (Num 100),
      fld_h = long_input 3, fld_i = double_input (Num 100),
      fld_j = long_input sevr,
      fld_l = long_input 1, fld_m = long_input 10, fld_r = long_input 0,
      fld_s = double_input (Num 2), fld_t = double_input (Num 2),
      ftva = menuFtypeLONG, ftvb = menuFtypeDOUBLE, ftvc = menuFtypeDOUBLE,
      vala = 0, valb = Num 0, valc = Num 0, vald = Num 0, vale = Num 0,
      valf = Num 0, valg = Num 0, valh = Num 0, vali = Num 0\<rparr>"

text \<open>A host for which severity 3 (EPICS's \<^verbatim>\<open>INVALID_ALARM\<close>) is invalid.\<close>

definition example_host :: host where
  "example_host = \<lparr>epicsSevInvalid = 3, inpa_time = at_second 10, current_time = at_second 11\<rparr>"

section \<open>Properties\<close>

subsection \<open>Auxiliary facts about binary64 arithmetic\<close>

lemma bitlen_numeral_simps:
  "bitlen 1 = 1"
  "bitlen (numeral (Num.Bit0 w)) = bitlen (numeral w) + 1"
  "bitlen (numeral (Num.Bit1 w)) = bitlen (numeral w) + 1"
proof -
  show "bitlen 1 = 1" by (subst compute_bitlen) simp
  show "bitlen (numeral (Num.Bit0 w)) = bitlen (numeral w) + 1"
    by (subst compute_bitlen) simp
  show "bitlen (numeral (Num.Bit1 w)) = bitlen (numeral w) + 1"
    by (subst compute_bitlen) simp
qed

lemmas to_double_eval = to_double_def exponent_of_def scale2_def round_half_even_def Let_def
  bitlen_numeral_simps f_inf_def

lemma to_double_zero [simp]: "to_double 0 = Num 0"
  by (simp add: to_double_def)

lemma to_double_not_NaN [simp]: "to_double r \<noteq> NaN"
  by (simp add: to_double_def Let_def f_inf_def)

lemma round_half_even_of_int [simp]: "round_half_even (of_int m) = m"
  by (simp add: round_half_even_def)

lemma round_half_even_numeral [simp]: "round_half_even (numeral w) = numeral w"
  using round_half_even_of_int [of "numeral w"] by simp

lemma to_double_of_int:
  assumes "\<bar>z\<bar> \<le> 2 ^ 53"
  shows "to_double (of_int z) = Num (of_int z)"
proof (cases "z = 0")
  case True
  then show ?thesis by simp
next
  case False
  define e where "e = bitlen \<bar>z\<bar> - 1"
  have pos: "0 < \<bar>z\<bar>" using False by simp
  from bitlen_bounds [OF pos]
  have b: "2 ^ nat e \<le> \<bar>z\<bar>" "\<bar>z\<bar> < 2 ^ nat (e + 1)"
    by (simp_all add: e_def)
  have e0: "0 \<le> e"
    using bitlen_nonneg [of "\<bar>z\<bar>"] pos bitlen_eq_zero_iff [of "\<bar>z\<bar>"]
    by (simp add: e_def)
  have "(2::int) ^ nat e \<le> 2 ^ 53" using b(1) assms by linarith
  then have "nat e \<le> 53" by (rule power_le_imp_le_exp [rotated]) simp
  then have e53: "e \<le> 53" by simp
  have ex: "exponent_of \<bar>of_int z\<bar> = e"
  proof -
    have "1 \<le> \<bar>z\<bar>" using pos by simp
    then have "(1::real) \<le> of_int \<bar>z\<bar>" by (simp only: of_int_1_le_iff)
    then have "(1::real) \<le> \<bar>of_int z\<bar>" by simp
    moreover have "\<lfloor>of_int \<bar>z\<bar> :: real\<rfloor> = \<bar>z\<bar>" by (rule floor_of_int)
    then have "\<lfloor>\<bar>of_int z :: real\<bar>\<rfloor> = \<bar>z\<bar>" by simp
    ultimately show ?thesis by (simp add: exponent_of_def e_def)
  qed
  have v: "scale2 (of_int (round_half_even (scale2 \<bar>of_int z\<bar> (52 - e)))) (e - 52)
             = \<bar>of_int z\<bar>"
  proof (cases "e \<le> 52")
    case True
    have "scale2 \<bar>of_int z\<bar> (52 - e) = of_int (\<bar>z\<bar> * 2 ^ nat (52 - e))"
      using True by (simp add: scale2_def)
    then have r: "round_half_even (scale2 \<bar>of_int z\<bar> (52 - e)) = \<bar>z\<bar> * 2 ^ nat (52 - e)"
      by (simp only: round_half_even_of_int)
    show ?thesis
    proof (cases "e = 52")
      case True
      then show ?thesis unfolding r by (simp add: scale2_def)
    next
      case False
      with True have "e - 52 < 0" "nat (- (e - 52)) = nat (52 - e)" by simp_all
      then show ?thesis unfolding r by (simp add: scale2_def)
    qed
  next
    case False
    with e53 have e: "e = 53" by simp
    with b(1) assms have z: "\<bar>z\<bar> = 2 ^ 53" by simp
    have "scale2 \<bar>of_int z\<bar> (52 - e) = of_int (2 ^ 52)"
      unfolding e by (simp add: scale2_def z flip: of_int_abs)
    then have r: "round_half_even (scale2 \<bar>of_int z\<bar> (52 - e)) = 2 ^ 52"
      by simp
    show ?thesis
      unfolding r e by (simp add: scale2_def z flip: of_int_abs)
  qed
  have small: "\<not> (2::real) ^ 1024 \<le> \<bar>of_int z\<bar>"
  proof -
    have "(of_int \<bar>z\<bar> :: real) \<le> of_int (2 ^ 53)"
      using assms by (simp only: of_int_le_iff)
    then have "\<bar>of_int z :: real\<bar> \<le> 2 ^ 53" by simp
    moreover have "(2::real) ^ 53 < 2 ^ 1024" by simp
    ultimately show ?thesis by linarith
  qed
  have max: "max e (- 1022) = e" using e0 by simp
  show ?thesis
    using False small
    unfolding to_double_def Let_def ex max v
    by (simp add: abs_if)
qed

lemma to_double_numeral [simp]:
  "numeral w \<le> (2::int) ^ 53 \<Longrightarrow> to_double (numeral w) = Num (numeral w)"
  using to_double_of_int [of "numeral w"] by simp

lemma to_double_one [simp]: "to_double 1 = Num 1"
  using to_double_of_int [of 1] by simp

lemma to_double_neg_numeral [simp]:
  "numeral w \<le> (2::int) ^ 53 \<Longrightarrow> to_double (- numeral w) = Num (- numeral w)"
  using to_double_of_int [of "- numeral w"] by simp

lemma to_double_neg_one [simp]: "to_double (- 1) = Num (- 1)"
  using to_double_of_int [of "- 1"] by simp






text \<open>Beyond that they round, and the sum of two finite doubles can overflow.\<close>

lemma to_double_third: "to_double (1 / 3) = Num (6004799503160661 / 18014398509481984)"
  by (simp add: to_double_eval)

lemma f_add_overflows: "f_add (Num (2 ^ 1023)) (Num (2 ^ 1023)) = PosInf"
  by (simp add: to_double_eval)


subsection \<open>Auxiliary facts about the fit\<close>

lemma sum_loop_done: "lastSlot < i \<Longrightarrow> sum_loop pData t0 i lastSlot acc = Inr acc"
  by (subst sum_loop.simps) simp

lemma sum_loop_step:
  "i \<le> lastSlot \<Longrightarrow> 0 \<le> i \<Longrightarrow> i < int (length (buffer pData)) \<Longrightarrow>
   sum_loop pData t0 i lastSlot acc =
     sum_loop pData t0 (i + 1) lastSlot
       \<lparr>x_sum = f_add (x_sum acc) (epicsTimeDiffInSeconds (sample_time (buffer pData ! nat i)) t0),
        y_sum = f_add (y_sum acc) (sample_value (buffer pData ! nat i)),
        xx_sum = f_add (xx_sum acc)
                   (f_mul (epicsTimeDiffInSeconds (sample_time (buffer pData ! nat i)) t0)
                          (epicsTimeDiffInSeconds (sample_time (buffer pData ! nat i)) t0)),
        xy_sum = f_add (xy_sum acc)
                   (f_mul (epicsTimeDiffInSeconds (sample_time (buffer pData ! nat i)) t0)
                          (sample_value (buffer pData ! nat i))),
        actual_size = actual_size acc + 1\<rparr>"
  by (subst sum_loop.simps) (simp add: buffer_at_def Let_def)

lemma sum_loop_in_bounds:
  "0 \<le> i \<Longrightarrow> lastSlot < int (length (buffer pData)) \<Longrightarrow>
   \<exists>r. sum_loop pData t0 i lastSlot acc = Inr r"
proof (induction pData t0 i lastSlot acc rule: sum_loop.induct)
  case (1 pData t0 i lastSlot acc)
  show ?case
  proof (cases "i \<le> lastSlot")
    case True
    with "1.prems" have b: "buffer_at pData i = Inr (buffer pData ! nat i)"
      by (simp add: buffer_at_def)
    from "1.IH" [OF True b refl refl] "1.prems" True
    show ?thesis
      by (subst sum_loop.simps) (simp add: b Let_def)
  next
    case False
    then show ?thesis by (simp add: sum_loop_done)
  qed
qed

lemma fit_single_sample:
  assumes "2 \<le> number" "sampleCount pData = 1" "1 \<le> length (buffer pData)"
  shows "slopeIntersect pData number = Inr (NaN, NaN)"
proof -
  have b: "buffer_at pData 0 = Inr (buffer pData ! 0)"
    using assms by (simp add: buffer_at_def Suc_le_eq)
  obtain v where v: "sample_value (buffer pData ! 0) = v" by blast
  have l: "sum_loop pData (sample_time (buffer pData ! 0)) 0 0
             \<lparr>x_sum = Num 0, y_sum = Num 0, xx_sum = Num 0, xy_sum = Num 0, actual_size = 0\<rparr>
           = Inr \<lparr>x_sum = Num 0, y_sum = f_add (Num 0) v, xx_sum = Num 0,
                  xy_sum = f_add (Num 0) (f_mul (Num 0) v), actual_size = 1\<rparr>"
    using assms sum_loop_step [of 0 0 pData]
    by (simp add: sum_loop_done epicsTimeDiffInSeconds_def v Suc_le_eq)
  have one: "f_of_int 1 = Num 1" by (simp add: f_of_int_def)
  show ?thesis
  proof (cases v)
    case (Num y)
    then show ?thesis
      using assms
      by (cases "to_double y")
         (simp_all add: slopeIntersect_def b l v f_sub_def one Let_def)
  qed (use assms in \<open>simp_all add: slopeIntersect_def b l v f_sub_def one Let_def\<close>)
qed

lemma valid_store10: "length ms \<le> 10 \<Longrightarrow> valid_data (store10 ms)"
  by (simp add: valid_data_def store10_def)

lemma reads_in_region:
  assumes "valid_data pData"
  shows "(\<forall>i \<in> set (slopeIntersect_reads pData number). 0 \<le> i \<and> i \<le> sampleCount pData - 1)
         \<longleftrightarrow> (number < 1 \<or> 1 \<le> sampleCount pData)"
  using assms by (auto simp: slopeIntersect_reads_def valid_data_def Let_def)

lemma fit_fails_iff:
  assumes "valid_data pData"
  shows "slopeIntersect pData number =
           (Inl (OutOfBounds (- 1)) :: error + (epicsFloat64 \<times> epicsFloat64))
         \<longleftrightarrow> (1 \<le> number \<and> sampleCount pData = 0)"
    and "(\<exists>r. slopeIntersect pData number = Inr r) \<longleftrightarrow> (number < 1 \<or> 1 \<le> sampleCount pData)"
proof -
  have empty: "1 \<le> number \<Longrightarrow> sampleCount pData = 0 \<Longrightarrow>
      slopeIntersect pData number = Inl (OutOfBounds (- 1))"
    by (simp add: slopeIntersect_def buffer_at_def Let_def)
  have ok: "\<exists>r. slopeIntersect pData number = Inr r" if "number < 1 \<or> 1 \<le> sampleCount pData"
  proof (cases "number < 2")
    case True
    with that assms show ?thesis
      by (auto simp: slopeIntersect_def buffer_at_def valid_data_def Let_def)
  next
    case False
    with that have sc: "1 \<le> sampleCount pData" by simp
    with assms have b: "buffer_at pData (sampleCount pData - 1)
                         = Inr (buffer pData ! nat (sampleCount pData - 1))"
      by (simp add: buffer_at_def valid_data_def)
    have "\<exists>r. sum_loop pData t0 (if sampleCount pData - number < 0 then 0 else sampleCount pData - number)
                 (sampleCount pData - 1) acc = Inr r" for t0 acc
      using assms by (intro sum_loop_in_bounds) (simp_all add: valid_data_def)
    then obtain r where "sum_loop pData (sample_time (buffer pData ! nat (sampleCount pData - 1)))
        (if sampleCount pData - number < 0 then 0 else sampleCount pData - number)
        (sampleCount pData - 1)
        \<lparr>x_sum = Num 0, y_sum = Num 0, xx_sum = Num 0, xy_sum = Num 0, actual_size = 0\<rparr> = Inr r"
      by blast
    with False b show ?thesis
      by (simp add: slopeIntersect_def Let_def)
  qed
  show "slopeIntersect pData number =
           (Inl (OutOfBounds (- 1)) :: error + (epicsFloat64 \<times> epicsFloat64))
         \<longleftrightarrow> (1 \<le> number \<and> sampleCount pData = 0)"
    using empty ok assms by (fastforce simp: valid_data_def)
  show "(\<exists>r. slopeIntersect pData number = Inr r) \<longleftrightarrow> (number < 1 \<or> 1 \<le> sampleCount pData)"
    using empty ok assms by (fastforce simp: valid_data_def)
qed


subsection \<open>Auxiliary facts about the store\<close>


lemma stored_store_measurement:
  assumes "valid_data p"
  shows "stored (store_measurement m p) =
           (if sampleCount p < maximumSamples p then stored p @ [m] else tl (stored p) @ [m])"
proof (cases "sampleCount p < maximumSamples p")
  case True
  with assms have n: "nat (sampleCount p) < length (buffer p)"
    unfolding valid_data_def by linarith
  have "nat (sampleCount p + 1) = Suc (nat (sampleCount p))"
    using assms unfolding valid_data_def by linarith
  with True n show ?thesis
    by (simp add: store_measurement_def stored_def take_Suc_conv_app_nth)
next
  case False
  with assms have full: "sampleCount p = maximumSamples p" "nat (maximumSamples p) = length (buffer p)"
    "buffer p \<noteq> []"
    unfolding valid_data_def by (linarith, linarith, auto)
  define n where "n = length (buffer p)"
  have n: "0 < n" "nat (maximumSamples p - 1) = n - 1" "nat (sampleCount p) = n"
    using full assms unfolding n_def valid_data_def by (simp, linarith, linarith)
  have a: "take (n - 1) (drop 1 (buffer p)) = tl (buffer p)"
    by (simp add: drop_Suc n_def)
  have "buffer p ! (n - 1) # drop (Suc (n - 1)) (buffer p) = drop (n - 1) (buffer p)"
    using n by (intro Cons_nth_drop_Suc) (simp add: n_def)
  then have b: "drop (n - 1) (buffer p) = [buffer p ! (n - 1)]"
    using n by (simp add: n_def)
  have c: "length (tl (buffer p)) = n - 1"
    by (simp add: n_def)
  have "(memmove_down (buffer p) (n - 1))[n - 1 := m] = tl (buffer p) @ [m]"
    unfolding memmove_down_def a b using list_update_length [of "tl (buffer p)" _ "[]" m]
    by (simp only: c)
  with False n show ?thesis
    by (simp add: store_measurement_def stored_def full)
qed


lemma valid_store_measurement:
  "valid_data p \<Longrightarrow> valid_data (store_measurement m p)"
  unfolding valid_data_def store_measurement_def memmove_down_def
  by (auto simp: min_def)

lemma valid_reset: "valid_data p \<Longrightarrow> valid_data (reset p)"
  by (simp add: valid_data_def reset_def)

lemma valid_accumulate: "valid_data p \<Longrightarrow> valid_data (accumulate k v p)"
  by (simp add: valid_data_def accumulate_def)

lemma valid_clear:
  "valid_data p \<Longrightarrow> valid_data (p\<lparr>decimateCount := c, decimateTotal := s\<rparr>)"
  by (simp add: valid_data_def)

lemma valid_ingest: "valid_data p \<Longrightarrow> valid_data (ingest r k t v p)"
  by (simp add: ingest_def Let_def valid_store_measurement valid_reset valid_accumulate
      valid_clear)

lemma maximumSamples_store_measurement [simp]:
  "maximumSamples (store_measurement m p) = maximumSamples p"
  by (simp add: store_measurement_def)

lemma maximumSamples_ingest [simp]: "maximumSamples (ingest r k t v p) = maximumSamples p"
  by (simp add: ingest_def Let_def reset_def accumulate_def)

lemma valid_ingests: "valid_data p \<Longrightarrow> valid_data (ingests cycles p)"
  by (induction cycles p rule: ingests.induct) (simp_all add: valid_ingest)

lemma maximumSamples_ingests [simp]: "maximumSamples (ingests cycles p) = maximumSamples p"
  by (induction cycles p rule: ingests.induct) simp_all

lemma sampleCount_store_measurement_full:
  "sampleCount p = maximumSamples p \<Longrightarrow> sampleCount (store_measurement m p) = maximumSamples p"
  by (simp add: store_measurement_def)





lemma same_store_store_measurement:
  assumes "same_store p q" "valid_data p" "valid_data q"
  shows "same_store (store_measurement m p) (store_measurement m q)"
proof -
  have "stored (store_measurement m p) = stored (store_measurement m q)"
    using assms by (simp add: stored_store_measurement same_store_def)
  moreover have "sampleCount (store_measurement m p) = sampleCount (store_measurement m q)"
    using assms by (simp add: store_measurement_def same_store_def)
  moreover have "decimateCount (store_measurement m p) = decimateCount (store_measurement m q)"
    "decimateTotal (store_measurement m p) = decimateTotal (store_measurement m q)"
    using assms by (simp_all add: store_measurement_def same_store_def)
  ultimately show ?thesis
    using assms by (simp add: same_store_def)
qed

lemma stored_decimate_update [simp]:
  "stored (p\<lparr>decimateCount := c\<rparr>) = stored p"
  "stored (p\<lparr>decimateTotal := s\<rparr>) = stored p"
  by (simp_all add: stored_def)

lemma stored_reset [simp]: "stored (reset p) = []"
  by (simp add: stored_def reset_def)

lemma stored_accumulate [simp]: "stored (accumulate k v p) = stored p"
  by (simp add: accumulate_def)

lemma same_store_reset: "same_store p q \<Longrightarrow> same_store (reset p) (reset q)"
  unfolding same_store_def stored_reset by (simp add: reset_def)

lemma same_store_accumulate:
  "same_store p q \<Longrightarrow> same_store (accumulate k v p) (accumulate k v q)"
  unfolding same_store_def by (simp add: accumulate_def)

lemma same_store_clear:
  "same_store p q \<Longrightarrow>
   same_store (p\<lparr>decimateCount := c, decimateTotal := s\<rparr>) (q\<lparr>decimateCount := c, decimateTotal := s\<rparr>)"
  unfolding same_store_def by simp

lemma same_store_ingest:
  assumes "same_store p q" "valid_data p" "valid_data q"
  shows "same_store (ingest r k t v p) (ingest r k t v q)"
proof -
  define p1 where "p1 = (if r then reset p else p)"
  define q1 where "q1 = (if r then reset q else q)"
  define p2 where "p2 = accumulate k v p1"
  define q2 where "q2 = accumulate k v q1"
  have s1: "same_store p1 q1" and v1: "valid_data p1" "valid_data q1"
    using assms by (simp_all add: p1_def q1_def same_store_reset valid_reset)
  have s2: "same_store p2 q2" and v2: "valid_data p2" "valid_data q2"
    using s1 v1 by (simp_all add: p2_def q2_def same_store_accumulate valid_accumulate)
  have d: "decimateCount p2 = decimateCount q2" "decimateTotal p2 = decimateTotal q2"
    using s2 by (simp_all add: same_store_def)
  have "same_store (store_measurement m (p2\<lparr>decimateCount := 0, decimateTotal := Num 0\<rparr>))
          (store_measurement m (q2\<lparr>decimateCount := 0, decimateTotal := Num 0\<rparr>))" for m
    using s2 v2 by (intro same_store_store_measurement same_store_clear valid_clear)
  then show ?thesis
    using s2 d unfolding ingest_def Let_def p2_def [symmetric] q2_def [symmetric]
      p1_def [symmetric] q1_def [symmetric]
    by simp
qed

lemma same_store_ingests:
  "same_store p q \<Longrightarrow> valid_data p \<Longrightarrow> valid_data q \<Longrightarrow>
   same_store (ingests cycles p) (ingests cycles q)"
proof (induction cycles arbitrary: p q)
  case Nil
  then show ?case by simp
next
  case (Cons c cycles)
  obtain r k t v where c: "c = (r, k, t, v)" by (cases c)
  show ?case
    unfolding c ingests.simps using Cons.prems
    by (intro Cons.IH same_store_ingest valid_ingest)
qed

lemma same_store_window: "same_store p q \<Longrightarrow> window p n = window q n"
  by (simp add: same_store_def window_def)

lemma sum_loop_cong:
  "0 \<le> i \<Longrightarrow> lastSlot < int (length (buffer p)) \<Longrightarrow> lastSlot < int (length (buffer q)) \<Longrightarrow>
   (\<forall>j. i \<le> j \<and> j \<le> lastSlot \<longrightarrow> buffer p ! nat j = buffer q ! nat j) \<Longrightarrow>
   sum_loop p t0 i lastSlot acc = sum_loop q t0 i lastSlot acc"
proof (induction p t0 i lastSlot acc rule: sum_loop.induct)
  case (1 p t0 i lastSlot acc)
  show ?case
  proof (cases "i \<le> lastSlot")
    case True
    with "1.prems" have b: "buffer_at p i = Inr (buffer p ! nat i)"
      by (simp add: buffer_at_def)
    have e: "buffer p ! nat i = buffer q ! nat i"
      using "1.prems"(4) True by simp
    from "1.IH" [OF True b refl refl] "1.prems" True e show ?thesis
      by (simp add: sum_loop_step)
  next
    case False
    then show ?thesis by (simp add: sum_loop_done)
  qed
qed

lemma same_store_fit:
  assumes "same_store p q" "valid_data p" "valid_data q"
  shows "slopeIntersect p n = slopeIntersect q n"
proof -
  have sc: "sampleCount p = sampleCount q" using assms by (simp add: same_store_def)
  have lp: "sampleCount p \<le> int (length (buffer p))" "sampleCount q \<le> int (length (buffer q))"
    "0 \<le> sampleCount p"
    using assms by (simp_all add: valid_data_def)
  have cell: "buffer p ! nat j = buffer q ! nat j" if "0 \<le> j" "j < sampleCount p" for j
  proof -
    have "stored p ! nat j = stored q ! nat j" using assms by (simp add: same_store_def)
    moreover have "nat j < nat (sampleCount p)" using that by simp
    ultimately show ?thesis by (simp add: stored_def sc)
  qed
  show ?thesis
  proof (cases "sampleCount p = 0")
    case True
    with sc show ?thesis by (simp add: slopeIntersect_def buffer_at_def Let_def)
  next
    case False
    with lp have pos: "1 \<le> sampleCount p" by simp
    have b: "buffer_at p (sampleCount p - 1) = Inr (buffer p ! nat (sampleCount p - 1))"
      "buffer_at q (sampleCount p - 1) = Inr (buffer q ! nat (sampleCount p - 1))"
      using pos lp sc by (simp_all add: buffer_at_def)
    have l: "buffer p ! nat (sampleCount p - 1) = buffer q ! nat (sampleCount p - 1)"
      using pos by (intro cell) simp_all
    have "sum_loop p t0 (if sampleCount p - n < 0 then 0 else sampleCount p - n)
            (sampleCount p - 1) acc
        = sum_loop q t0 (if sampleCount p - n < 0 then 0 else sampleCount p - n)
            (sampleCount p - 1) acc" for t0 acc
      using lp sc cell by (intro sum_loop_cong) simp_all
    then show ?thesis
      by (simp add: slopeIntersect_def Let_def sc [symmetric] b l)
  qed
qed

lemma valid_allocate: "1 \<le> n \<Longrightarrow> valid_data (allocate n)"
  by (simp add: valid_data_def allocate_def)

lemma same_store_reset_allocate:
  "same_store (reset p) (allocate (maximumSamples p))"
  by (simp add: same_store_def) (simp add: reset_def allocate_def stored_def)

lemma fit_returns:
  "valid_data p \<Longrightarrow> 1 \<le> sampleCount p \<Longrightarrow> \<exists>slope intercept. slopeIntersect p n = Inr (slope, intercept)"
  using fit_fails_iff(2) [of p n] by auto

lemma estimate_returns:
  assumes "valid_data p" "1 \<le> sampleCount p"
  shows "\<exists>slope intercept. slopeIntersect p n = Inr (slope, intercept)
           \<and> estimate p rf tf n th =
               Inr (f_mul slope rf, f_div (f_div (f_sub th intercept) slope) tf)"
proof -
  from fit_returns [OF assms] obtain slope intercept
    where "slopeIntersect p n = Inr (slope, intercept)" by blast
  then show ?thesis by (simp add: estimate_def)
qed

text \<open>
  A record that \<^verbatim>\<open>RattleInit\<close> accepts holds a store of a capacity between 10 and
  32768, in its representation invariant.
\<close>

lemma LIMIT_range: "low \<le> high \<Longrightarrow> low \<le> LIMIT x low high \<and> LIMIT x low high \<le> high"
  by (simp add: LIMIT_def MAX_c_def MIN_c_def)

lemma RattleInit_allocates:
  assumes "RattleInit prec = (0, prec')"
  shows "\<exists>number. 10 \<le> number \<and> number \<le> 32768
           \<and> dpvt prec' = Some (allocate number) \<and> valid_data (allocate number)"
proof -
  define number where "number = LIMIT (MAX_c (MAX_c (MAX_c (LONG_VALUE (fld_b prec) 0)
      (LONG_VALUE (fld_d prec) 0)) (MAX_c (LONG_VALUE (fld_f prec) 0) (LONG_VALUE (fld_h prec) 0)))
      (LONG_VALUE (fld_m prec) 0)) 10 32768"
  have r: "10 \<le> number \<and> number \<le> 32768"
    unfolding number_def by (rule LIMIT_range) simp
  have "dpvt prec' = Some (allocate number)"
    using assms unfolding RattleInit_def Let_def number_def
    by (auto split: if_splits)
  with r show ?thesis
    by (intro exI [of _ number]) (simp add: valid_allocate)
qed

subsection \<open>Auxiliary facts about the least squares sums\<close>











subsection \<open>The fit on samples of one line\<close>




subsection \<open>The fit on fewer than two samples\<close>

text \<open>
  Claim C2, as amended. The claim reads the guards of \<^verbatim>\<open>slopeIntersect\<close> as guards on
  the number of samples in the window; the code guards on the requested \<^verbatim>\<open>number\<close>.
  For a store in its representation invariant: a request \<open>number < 1\<close> gives slope 0
  and intercept 0; a request of exactly 1 on a store that is not empty gives slope 0
  and the newest measurement's value as intercept; and a window that holds one sample
  because the store holds one while \<open>number \<ge> 2\<close> is a degenerate fit (\<open>delta = 0\<close>),
  slope and intercept both NaN. Nothing is said about an empty store with
  \<open>number \<ge> 1\<close>.
\<close>

theorem fit_few_samples:
  assumes "valid_data pData"
  shows "(number < 1 \<longrightarrow> slopeIntersect pData number = Inr (Num 0, Num 0))
       \<and> (number = 1 \<and> 1 \<le> sampleCount pData \<longrightarrow>
            slopeIntersect pData number = Inr (Num 0, sample_value (last (stored pData))))
       \<and> (2 \<le> number \<and> sampleCount pData = 1 \<longrightarrow>
            slopeIntersect pData number = Inr (NaN, NaN))"
proof (intro conjI impI)
  assume "number < 1"
  then show "slopeIntersect pData number = Inr (Num 0, Num 0)"
    by (simp add: slopeIntersect_def)
next
  assume a: "number = 1 \<and> 1 \<le> sampleCount pData"
  with assms have n: "nat (sampleCount pData) \<le> length (buffer pData)" "0 < nat (sampleCount pData)"
    unfolding valid_data_def by linarith+
  then have "stored pData \<noteq> []" by (auto simp: stored_def)
  then have "last (stored pData) = buffer pData ! (nat (sampleCount pData) - 1)"
    using n by (simp add: stored_def last_conv_nth min_absorb2)
  moreover have "nat (sampleCount pData) - 1 = nat (sampleCount pData - 1)" by simp
  ultimately show "slopeIntersect pData number = Inr (Num 0, sample_value (last (stored pData)))"
    using a assms by (simp add: slopeIntersect_def buffer_at_def valid_data_def)
next
  assume "2 \<le> number \<and> sampleCount pData = 1"
  with assms show "slopeIntersect pData number = Inr (NaN, NaN)"
    by (intro fit_single_sample) (simp_all add: valid_data_def)
qed

theorem fit_few_samples_witness:
  "valid_data (store10 [measured 1 5])
   \<and> slopeIntersect (store10 [measured 1 5]) 0 = Inr (Num 0, Num 0)
   \<and> slopeIntersect (store10 [measured 1 5]) 1 = Inr (Num 0, Num 5)
   \<and> slopeIntersect (store10 [measured 1 5]) 3 = Inr (NaN, NaN)"
proof -
  have v: "valid_data (store10 [measured 1 5])" by (simp add: valid_store10)
  have s: "sampleCount (store10 [measured 1 5]) = 1" by (simp add: store10_def)
  have l: "sample_value (last (stored (store10 [measured 1 5]))) = Num 5"
    by (simp add: store10_def stored_def measured_def)
  show ?thesis
    using v s l fit_few_samples [OF v, of 0] fit_few_samples [OF v, of 1]
      fit_few_samples [OF v, of 3]
    by simp
qed

theorem fit_one_stored_sample_counterexample:
  "min 2 (sampleCount (store10 [measured 1 5])) = 1
   \<and> slopeIntersect (store10 [measured 1 5]) 2 = Inr (NaN, NaN)
   \<and> slopeIntersect (store10 [measured 1 5]) 2 \<noteq> Inr (Num 0, Num 5)"
proof -
  have "slopeIntersect (store10 [measured 1 5]) 2 = Inr (NaN, NaN)"
    by (rule fit_single_sample) (simp_all add: store10_def)
  then show ?thesis by (simp add: store10_def)
qed


subsection \<open>Buffer reads of the fit\<close>

text \<open>
  For a store in its representation invariant, every buffer read of
  \<^verbatim>\<open>slopeIntersect\<close> lies in the measurements \<open>[0, sampleCount - 1]\<close> exactly when
  \<open>number < 1\<close> or \<open>sampleCount \<ge> 1\<close>, and exactly then the function returns. On an
  empty store every request \<open>number \<ge> 1\<close> reads \<^verbatim>\<open>buffer[-1]\<close>.
\<close>

lemma fit_reads_inside_measurements:
  assumes "valid_data pData"
  shows "((\<forall>i \<in> set (slopeIntersect_reads pData number). 0 \<le> i \<and> i \<le> sampleCount pData - 1)
          \<longleftrightarrow> (number < 1 \<or> 1 \<le> sampleCount pData))
       \<and> ((\<exists>r. slopeIntersect pData number = Inr r) \<longleftrightarrow> (number < 1 \<or> 1 \<le> sampleCount pData))
       \<and> (1 \<le> number \<and> sampleCount pData = 0 \<longrightarrow>
            - 1 \<in> set (slopeIntersect_reads pData number)
            \<and> slopeIntersect pData number = Inl (OutOfBounds (- 1)))"
proof (intro conjI impI)
  show "(\<forall>i \<in> set (slopeIntersect_reads pData number). 0 \<le> i \<and> i \<le> sampleCount pData - 1)
          \<longleftrightarrow> (number < 1 \<or> 1 \<le> sampleCount pData)"
    by (rule reads_in_region [OF assms])
  show "(\<exists>r. slopeIntersect pData number = Inr r) \<longleftrightarrow> (number < 1 \<or> 1 \<le> sampleCount pData)"
    by (rule fit_fails_iff(2) [OF assms])
next
  assume a: "1 \<le> number \<and> sampleCount pData = 0"
  then show "- 1 \<in> set (slopeIntersect_reads pData number)"
    by (simp add: slopeIntersect_reads_def Let_def)
  from a show "slopeIntersect pData number = Inl (OutOfBounds (- 1))"
    using fit_fails_iff(1) [OF assms, of number] by simp
qed

text \<open>
  Claim C9. The claim holds that for \<open>number \<ge> 2\<close> every read stays in bounds even
  when the store is empty. The code misses that case: on an empty store of capacity
  10 and \<open>number = 2\<close> the loop reads nothing, but before the loop the function reads
  \<^verbatim>\<open>buffer[lastSlot].time\<close> with \<open>lastSlot = -1\<close>, one cell before the buffer.
\<close>

theorem fit_reads_before_buffer:
  "valid_data (store10 [])
   \<and> sampleCount (store10 []) = 0
   \<and> slopeIntersect_reads (store10 []) 2 = [- 1]
   \<and> slopeIntersect (store10 []) 2 = Inl (OutOfBounds (- 1))"
  by (simp add: valid_data_def store10_def slopeIntersect_reads_def slopeIntersect_def
      buffer_at_def Let_def)

subsection \<open>Cycles that are skipped or rejected\<close>

text \<open>
  Claim C6. In a cycle of a record that holds its private data, a severity at or
  above \<^verbatim>\<open>epicsSevInvalid\<close> makes \<^verbatim>\<open>RattleProcess\<close> return 0 and leave the whole
  record as it was: store, decimation state and outputs; neither the reset nor the
  ingest takes place.
\<close>

theorem invalid_severity_skips_cycle:
  assumes "dpvt prec = Some pData"
    and "epicsSevInvalid h \<le> LONG_VALUE (fld_j prec) 0"
  shows "RattleProcess h prec = Inr (0, prec)"
  using assms by (simp add: RattleProcess_def)

theorem invalid_severity_skips_cycle_witness:
  "dpvt (example_record (Some (store10 [measured 1 5])) (Num 7) 3) = Some (store10 [measured 1 5])
   \<and> epicsSevInvalid example_host \<le> LONG_VALUE (fld_j (example_record (Some (store10 [measured 1 5])) (Num 7) 3)) 0
   \<and> RattleProcess example_host (example_record (Some (store10 [measured 1 5])) (Num 7) 3)
       = Inr (0, example_record (Some (store10 [measured 1 5])) (Num 7) 3)"
proof -
  have d: "dpvt (example_record (Some (store10 [measured 1 5])) (Num 7) 3) = Some (store10 [measured 1 5])"
    by (simp add: example_record_def)
  have s: "epicsSevInvalid example_host \<le> LONG_VALUE (fld_j (example_record (Some (store10 [measured 1 5])) (Num 7) 3)) 0"
    by (simp add: example_record_def example_host_def LONG_VALUE_def long_input_def)
  show ?thesis using d s invalid_severity_skips_cycle [OF d s] by simp
qed


text \<open>
  Claim C3, as amended. A cycle whose input value is NaN or infinite leaves the
  whole record as it was: store, decimation state and outputs. It returns the
  negative status -1, except when the severity is at or above \<^verbatim>\<open>epicsSevInvalid\<close>:
  that test comes first, and the cycle is then the skipped cycle of C6, which
  returns 0.
\<close>

theorem nonfinite_input_rejected:
  assumes "isNanOrInfinite (DOUBLE_FIELD (fld_a prec))"
  shows "RattleProcess h prec =
           Inr (if dpvt prec \<noteq> None \<and> epicsSevInvalid h \<le> LONG_VALUE (fld_j prec) 0 then 0 else - 1,
                prec)"
  using assms by (simp add: RattleProcess_def split: option.split)

theorem nonfinite_input_rejected_witness:
  "isNanOrInfinite (DOUBLE_FIELD (fld_a (example_record (Some (store10 [measured 1 5])) PosInf 0)))
   \<and> RattleProcess example_host (example_record (Some (store10 [measured 1 5])) PosInf 0)
       = Inr (- 1, example_record (Some (store10 [measured 1 5])) PosInf 0)"
proof -
  have h: "isNanOrInfinite
             (DOUBLE_FIELD (fld_a (example_record (Some (store10 [measured 1 5])) PosInf 0)))"
    by (simp add: example_record_def double_input_def isNanOrInfinite_def isinf_def)
  have s: "\<not> epicsSevInvalid example_host
               \<le> LONG_VALUE (fld_j (example_record (Some (store10 [measured 1 5])) PosInf 0)) 0"
    by (simp add: example_record_def example_host_def LONG_VALUE_def long_input_def)
  show ?thesis
    using h s nonfinite_input_rejected [OF h, of example_host] by simp
qed

theorem nonfinite_input_invalid_severity_counterexample:
  "isNanOrInfinite (DOUBLE_FIELD (fld_a (example_record (Some (store10 [measured 1 5])) NaN 3)))
   \<and> RattleProcess example_host (example_record (Some (store10 [measured 1 5])) NaN 3)
       = Inr (0, example_record (Some (store10 [measured 1 5])) NaN 3)"
  by (simp add: RattleProcess_def example_record_def example_host_def LONG_VALUE_def long_input_def
      double_input_def isNanOrInfinite_def isnan_def)


subsection \<open>Decimation\<close>

text \<open>
  Claim C10, as amended. In a cycle without reset whose decimation factor is at
  most the pending decimation count, the raw value is not added to the running sum,
  the decimation state is cleared, and a measurement with the time stamp of the new
  sample is stored. Its value is the stale running sum divided by the new factor
  when that factor is not 1; when the factor is 1 it is the new raw value itself,
  and the stale sum is dropped.
\<close>

theorem decreased_factor_emits:
  assumes "k \<le> decimateCount pData"
  shows "accumulate k val pData = pData
       \<and> ingest False k time val pData =
           store_measurement
             \<lparr>sample_time = time,
              sample_value = (if k = 1 then val else f_div (decimateTotal pData) (f_of_int k))\<rparr>
             (pData\<lparr>decimateCount := 0, decimateTotal := Num 0\<rparr>)"
  using assms by (simp add: ingest_def accumulate_def Let_def)

theorem decreased_factor_emits_witness:
  "(2::int) \<le> decimateCount (store10 [measured 1 5]\<lparr>decimateCount := 2, decimateTotal := Num 8\<rparr>)
   \<and> stored (ingest False 2 (at_second 3) (Num 7)
               (store10 [measured 1 5]\<lparr>decimateCount := 2, decimateTotal := Num 8\<rparr>))
       = [measured 1 5, measured 3 4]"
proof -
  have h: "(2::int) \<le> decimateCount (store10 [measured 1 5]\<lparr>decimateCount := 2, decimateTotal := Num 8\<rparr>)"
    by simp
  show ?thesis
    using h decreased_factor_emits [OF h, of "Num 7" "at_second 3"]
    by (simp add: store_measurement_def store10_def stored_def measured_def f_of_int_def
        eval_nat_numeral)
qed

theorem decreased_factor_to_one_counterexample:
  "(1::int) \<le> decimateCount (store10 []\<lparr>decimateCount := 1, decimateTotal := Num 5\<rparr>)
   \<and> stored (ingest False 1 (at_second 3) (Num 7)
               (store10 []\<lparr>decimateCount := 1, decimateTotal := Num 5\<rparr>))
       = [measured 3 7]
   \<and> f_div (decimateTotal (store10 []\<lparr>decimateCount := 1, decimateTotal := Num 5\<rparr>)) (f_of_int 1)
       = Num 5"
  by (simp add: ingest_def accumulate_def store_measurement_def store10_def stored_def
      measured_def f_of_int_def Let_def eval_nat_numeral)




subsection \<open>The bounded store\<close>

text \<open>
  Claim C4. From a store in its representation invariant, every sequence of cycles
  leaves a store in the invariant with the same capacity: the sample count never
  exceeds \<^verbatim>\<open>maximumSamples\<close>. Putting a measurement into a full store discards
  exactly the oldest one: the others keep their order, the new one is last, and the
  count stays at the capacity.
\<close>

theorem store_bounded_evicts_oldest:
  assumes "valid_data pData"
  shows "valid_data (ingests cycles pData)
       \<and> maximumSamples (ingests cycles pData) = maximumSamples pData
       \<and> sampleCount (ingests cycles pData) \<le> maximumSamples pData
       \<and> (sampleCount pData = maximumSamples pData \<longrightarrow>
            stored (store_measurement m pData) = tl (stored pData) @ [m]
            \<and> sampleCount (store_measurement m pData) = maximumSamples pData)"
proof -
  have v: "valid_data (ingests cycles pData)"
    by (rule valid_ingests [OF assms])
  then have "sampleCount (ingests cycles pData) \<le> maximumSamples pData"
    by (simp add: valid_data_def)
  with v show ?thesis
    by (simp add: stored_store_measurement [OF assms] sampleCount_store_measurement_full)
qed

theorem store_bounded_evicts_oldest_witness:
  "valid_data (store10 [measured 1 1, measured 2 2, measured 3 3, measured 4 4, measured 5 5,
               measured 6 6, measured 7 7, measured 8 8, measured 9 9, measured 10 10])
   \<and> sampleCount (store10 [measured 1 1, measured 2 2, measured 3 3, measured 4 4, measured 5 5,
               measured 6 6, measured 7 7, measured 8 8, measured 9 9, measured 10 10]) = maximumSamples (store10 [measured 1 1, measured 2 2, measured 3 3, measured 4 4, measured 5 5,
               measured 6 6, measured 7 7, measured 8 8, measured 9 9, measured 10 10])
   \<and> sampleCount (ingests [(False, 1, at_second 11, Num 11), (False, 1, at_second 12, Num 12)]
                     (store10 [measured 1 1, measured 2 2, measured 3 3, measured 4 4, measured 5 5,
               measured 6 6, measured 7 7, measured 8 8, measured 9 9, measured 10 10])) \<le> 10
   \<and> stored (store_measurement (measured 11 11) (store10 [measured 1 1, measured 2 2, measured 3 3, measured 4 4, measured 5 5,
               measured 6 6, measured 7 7, measured 8 8, measured 9 9, measured 10 10]))
       = [measured 2 2, measured 3 3, measured 4 4, measured 5 5, measured 6 6,
          measured 7 7, measured 8 8, measured 9 9, measured 10 10, measured 11 11]"
proof -
  define S where "S = store10 [measured 1 1, measured 2 2, measured 3 3, measured 4 4, measured 5 5,
               measured 6 6, measured 7 7, measured 8 8, measured 9 9, measured 10 10]"
  have v: "valid_data S" by (simp add: S_def valid_store10)
  have f: "sampleCount S = maximumSamples S" "maximumSamples S = 10"
    by (simp_all add: S_def store10_def)
  have st: "stored S = [measured 1 1, measured 2 2, measured 3 3, measured 4 4, measured 5 5,
               measured 6 6, measured 7 7, measured 8 8, measured 9 9, measured 10 10]"
    by (simp add: S_def store10_def stored_def)
  show ?thesis
    using v f st
      store_bounded_evicts_oldest [OF v,
        of "[(False, 1, at_second 11, Num 11), (False, 1, at_second 12, Num 12)]"
           "measured 11 11"]
    unfolding S_def by simp
qed

subsection \<open>Reset\<close>

text \<open>
  Claim C8. Let a store in its representation invariant be reset. After any
  sequence of cycles it has the same length, the same window for every window size
  and the same fit for every window size as a store that \<^verbatim>\<open>RattleInit\<close> has just
  allocated with the same capacity and that went through the same cycles. The
  reset changes neither the capacity nor the buffer, and a second reset changes
  nothing.
\<close>

theorem reset_behaves_as_fresh:
  assumes "valid_data pData"
  shows "sampleCount (ingests cycles (reset pData))
           = sampleCount (ingests cycles (allocate (maximumSamples pData)))
       \<and> window (ingests cycles (reset pData)) n
           = window (ingests cycles (allocate (maximumSamples pData))) n
       \<and> slopeIntersect (ingests cycles (reset pData)) n
           = slopeIntersect (ingests cycles (allocate (maximumSamples pData))) n
       \<and> maximumSamples (reset pData) = maximumSamples pData
       \<and> buffer (reset pData) = buffer pData
       \<and> reset (reset pData) = reset pData"
proof -
  have v1: "valid_data (reset pData)" by (rule valid_reset [OF assms])
  have v2: "valid_data (allocate (maximumSamples pData))"
    using assms by (intro valid_allocate) (simp add: valid_data_def)
  have s: "same_store (ingests cycles (reset pData))
             (ingests cycles (allocate (maximumSamples pData)))"
    by (intro same_store_ingests same_store_reset_allocate v1 v2)
  have "slopeIntersect (ingests cycles (reset pData)) n
           = slopeIntersect (ingests cycles (allocate (maximumSamples pData))) n"
    by (intro same_store_fit s valid_ingests v1 v2)
  moreover have "sampleCount (ingests cycles (reset pData))
           = sampleCount (ingests cycles (allocate (maximumSamples pData)))"
    using s by (simp add: same_store_def)
  moreover have "maximumSamples (reset pData) = maximumSamples pData"
    "buffer (reset pData) = buffer pData" "reset (reset pData) = reset pData"
    by (simp_all add: reset_def)
  ultimately show ?thesis
    using same_store_window [OF s, of n] by simp
qed

theorem reset_behaves_as_fresh_witness:
  "valid_data (store10 [measured 1 5])
   \<and> slopeIntersect (ingests [(False, 1, at_second 2, Num 1), (False, 1, at_second 3, Num 4)]
                        (reset (store10 [measured 1 5]))) 2
       = slopeIntersect (ingests [(False, 1, at_second 2, Num 1), (False, 1, at_second 3, Num 4)]
                          (allocate 10)) 2"
proof -
  have v: "valid_data (store10 [measured 1 5])" by (simp add: valid_store10)
  have m: "maximumSamples (store10 [measured 1 5]) = 10" by (simp add: store10_def)
  show ?thesis
    using v reset_behaves_as_fresh [OF v,
        of "[(False, 1, at_second 2, Num 1), (False, 1, at_second 3, Num 4)]" 2]
    unfolding m by simp
qed

subsection \<open>The outputs of a cycle\<close>

text \<open>
  Claim C7. Take a cycle that passes the severity test and the test of the input
  value, on a record whose store is in its representation invariant, and let the
  store hold a measurement after the ingest. Then \<^verbatim>\<open>RattleProcess\<close> returns 0, and
  for each of the 4 slots the emitted rate is \<open>slope * rateOfChangeFactor\<close> and the
  emitted eta is \<open>((threshold - intercept) / slope) / timeEstimateFactor\<close>, where slope
  and intercept are the fit of the slot's window on the store after the ingest. The
  two scale factors are the configured values replaced by 1.0 when \<open>\<le> 0\<close>, and the
  decimation factor is the configured value replaced by 1 when \<open>\<le> 0\<close>.
\<close>

theorem cycle_outputs:
  assumes "dpvt prec = Some pData" and "valid_data pData"
    and "LONG_VALUE (fld_j prec) 0 < epicsSevInvalid h"
    and "\<not> isNanOrInfinite (DOUBLE_FIELD (fld_a prec))"
    and "pData' = ingest (doReset prec) (decimateFactor prec) (sample_time_of h prec)
                    (DOUBLE_FIELD (fld_a prec)) pData"
    and "1 \<le> sampleCount pData'"
  shows "\<exists>prec'. RattleProcess h prec = Inr (0, prec')
           \<and> dpvt prec' = Some pData' \<and> vala prec' = sampleCount pData'
           \<and> (\<forall>j. j < 4 \<longrightarrow>
                (\<exists>slope intercept.
                   slopeIntersect pData' (numberSamples prec pData ! j) = Inr (slope, intercept)
                   \<and> rates prec' ! j = f_mul slope (rateOfChangeFactor prec)
                   \<and> etas prec' ! j =
                       f_div (f_div (f_sub (thresholds prec ! j) intercept) slope)
                             (timeEstimateFactor prec)))
           \<and> rateOfChangeFactor prec =
               (if f_le_zero (DOUBLE_VALUE (fld_s prec) (Num 1)) then Num 1
                else DOUBLE_VALUE (fld_s prec) (Num 1))
           \<and> timeEstimateFactor prec =
               (if f_le_zero (DOUBLE_VALUE (fld_t prec) (Num 1)) then Num 1
                else DOUBLE_VALUE (fld_t prec) (Num 1))
           \<and> decimateFactor prec =
               (if LONG_VALUE (fld_l prec) 1 \<le> 0 then 1 else LONG_VALUE (fld_l prec) 1)"
proof -
  have v: "valid_data pData'"
    unfolding assms(5) by (rule valid_ingest [OF assms(2)])
  define est where "est = (\<lambda>j. estimate pData' (rateOfChangeFactor prec) (timeEstimateFactor prec)
                                (numberSamples prec pData ! j) (thresholds prec ! j))"
  have e: "\<exists>slope intercept. slopeIntersect pData' (numberSamples prec pData ! j) = Inr (slope, intercept)
           \<and> est j = Inr (f_mul slope (rateOfChangeFactor prec),
                           f_div (f_div (f_sub (thresholds prec ! j) intercept) slope)
                                 (timeEstimateFactor prec))" for j
    unfolding est_def by (rule estimate_returns [OF v assms(6)])
  obtain s0 i0 where e0: "slopeIntersect pData' (numberSamples prec pData ! 0) = Inr (s0, i0)"
      "est 0 = Inr (f_mul s0 (rateOfChangeFactor prec),
                    f_div (f_div (f_sub (thresholds prec ! 0) i0) s0) (timeEstimateFactor prec))"
    using e [of 0] by blast
  obtain s1 i1 where e1: "slopeIntersect pData' (numberSamples prec pData ! 1) = Inr (s1, i1)"
      "est 1 = Inr (f_mul s1 (rateOfChangeFactor prec),
                    f_div (f_div (f_sub (thresholds prec ! 1) i1) s1) (timeEstimateFactor prec))"
    using e [of 1] by blast
  obtain s2 i2 where e2: "slopeIntersect pData' (numberSamples prec pData ! 2) = Inr (s2, i2)"
      "est 2 = Inr (f_mul s2 (rateOfChangeFactor prec),
                    f_div (f_div (f_sub (thresholds prec ! 2) i2) s2) (timeEstimateFactor prec))"
    using e [of 2] by blast
  obtain s3 i3 where e3: "slopeIntersect pData' (numberSamples prec pData ! 3) = Inr (s3, i3)"
      "est 3 = Inr (f_mul s3 (rateOfChangeFactor prec),
                    f_div (f_div (f_sub (thresholds prec ! 3) i3) s3) (timeEstimateFactor prec))"
    using e [of 3] by blast
  define prec' where "prec' = prec\<lparr>dpvt := Some pData', vala := sampleCount pData',
      valb := f_mul s0 (rateOfChangeFactor prec),
      valc := f_div (f_div (f_sub (thresholds prec ! 0) i0) s0) (timeEstimateFactor prec),
      vald := f_mul s1 (rateOfChangeFactor prec),
      vale := f_div (f_div (f_sub (thresholds prec ! 1) i1) s1) (timeEstimateFactor prec),
      valf := f_mul s2 (rateOfChangeFactor prec),
      valg := f_div (f_div (f_sub (thresholds prec ! 2) i2) s2) (timeEstimateFactor prec),
      valh := f_mul s3 (rateOfChangeFactor prec),
      vali := f_div (f_div (f_sub (thresholds prec ! 3) i3) s3) (timeEstimateFactor prec)\<rparr>"
  have run: "RattleProcess h prec = Inr (0, prec')"
    using assms(1,3,4) e0(2) e1(2) e2(2) e3(2)
    unfolding est_def assms(5) prec'_def
    by (simp add: RattleProcess_def Let_def)
  have slots: "\<exists>slope intercept.
                   slopeIntersect pData' (numberSamples prec pData ! j) = Inr (slope, intercept)
                   \<and> rates prec' ! j = f_mul slope (rateOfChangeFactor prec)
                   \<and> etas prec' ! j =
                       f_div (f_div (f_sub (thresholds prec ! j) intercept) slope)
                             (timeEstimateFactor prec)" if "j < 4" for j
  proof -
    from that consider "j = 0" | "j = 1" | "j = 2" | "j = 3" by linarith
    then show ?thesis
    proof cases
      case 1 with e0(1) show ?thesis by (simp add: rates_def etas_def prec'_def)
    next
      case 2 with e1(1) show ?thesis by (simp add: rates_def etas_def prec'_def)
    next
      case 3 with e2(1) show ?thesis by (simp add: rates_def etas_def prec'_def)
    next
      case 4 with e3(1) show ?thesis by (simp add: rates_def etas_def prec'_def)
    qed
  qed
  have "dpvt prec' = Some pData'" "vala prec' = sampleCount pData'"
    by (simp_all add: prec'_def)
  with run slots show ?thesis
    by (intro exI [of _ prec'])
       (simp add: rateOfChangeFactor_def timeEstimateFactor_def decimateFactor_def
          ZERO2ONE_def ZERO2ONE_double_def)
qed

theorem cycle_outputs_witness:
  "dpvt (example_record (Some (store10 [measured 1 5])) (Num 9) 0) = Some (store10 [measured 1 5])
   \<and> valid_data (store10 [measured 1 5])
   \<and> 1 \<le> sampleCount (ingest False 1 (at_second 10) (Num 9) (store10 [measured 1 5]))
   \<and> (\<exists>prec'. RattleProcess example_host (example_record (Some (store10 [measured 1 5])) (Num 9) 0)
                  = Inr (0, prec')
        \<and> vala prec' = 2)"
proof -
  define R where "R = example_record (Some (store10 [measured 1 5])) (Num 9) 0"
  define P where "P = ingest False 1 (at_second 10) (Num 9) (store10 [measured 1 5])"
  have d: "dpvt R = Some (store10 [measured 1 5])" by (simp add: R_def example_record_def)
  have v: "valid_data (store10 [measured 1 5])" by (simp add: valid_store10)
  have s: "LONG_VALUE (fld_j R) 0 < epicsSevInvalid example_host"
    by (simp add: R_def example_record_def example_host_def LONG_VALUE_def long_input_def)
  have f: "\<not> isNanOrInfinite (DOUBLE_FIELD (fld_a R))"
    by (simp add: R_def example_record_def double_input_def isNanOrInfinite_def isnan_def
        isinf_def)
  have i: "P = ingest (doReset R) (decimateFactor R) (sample_time_of example_host R)
                 (DOUBLE_FIELD (fld_a R)) (store10 [measured 1 5])"
    by (simp add: P_def R_def example_record_def example_host_def doReset_def
        decimateFactor_def sample_time_of_def ZERO2ONE_def LONG_VALUE_def long_input_def
        double_input_def)
  have c: "sampleCount P = 2"
    by (simp add: P_def ingest_def accumulate_def store_measurement_def store10_def Let_def)
  then have c1: "1 \<le> sampleCount P" by simp
  show ?thesis
    using d v c c1 cycle_outputs [OF d v s f i c1] unfolding R_def P_def by auto
qed

end
